theory Spec2Isabelle
  imports Main "HOL-Library.Word"
begin

unbundle bit_operations_syntax

section \<open>Library functions used by the program\<close>

text \<open>
  The program is a single Go file, \<^verbatim>\<open>main.go\<close>. Its functions call the Go standard
  library: \<^verbatim>\<open>strconv.FormatInt\<close> and \<^verbatim>\<open>strconv.Itoa\<close>, \<^verbatim>\<open>sha256.New\<close> with
  \<^verbatim>\<open>Write\<close> and \<^verbatim>\<open>Sum\<close>, \<^verbatim>\<open>hex.EncodeToString\<close>, \<^verbatim>\<open>strings.Repeat\<close> and
  \<^verbatim>\<open>strings.HasPrefix\<close>. These are modelled here after their documented behaviour.
  A Go \<^verbatim>\<open>string\<close> is a sequence of bytes, and so is a HOL \<^typ>\<open>string\<close>.
  Go's \<^verbatim>\<open>int64\<close> is a 64-bit word read in two's complement; Go's \<^verbatim>\<open>int\<close> is taken at
  its width on 64-bit targets, the same 64 bits. The runtime refuses an allocation larger
  than its constant \<^verbatim>\<open>maxAlloc\<close> with a panic, which is modelled; a smaller allocation
  for which the machine has no memory left is not.
\<close>

type_synonym byte = "8 word"

type_synonym int64 = "64 word"

type_synonym go_int = "64 word"

subsection \<open>strconv.FormatInt(i, 10) and strconv.Itoa\<close>

definition digit_char :: "int \<Rightarrow> char" where
  "digit_char d = ''0123456789'' ! nat d"

text \<open>
  The digit loop of \<^verbatim>\<open>strconv\<close>: digits are produced from the least significant one
  and written in front of those already there.
\<close>

function format_bits :: "int \<Rightarrow> string \<Rightarrow> string" where
  "format_bits u acc =
     (if u < 10 then digit_char u # acc
      else format_bits (u div 10) (digit_char (u mod 10) # acc))"
  by pat_completeness auto
termination
  by (relation "measure (\<lambda>(u, acc). nat u)") auto

declare format_bits.simps [simp del]

text \<open>
  A negative argument is negated as an unsigned 64-bit value (so the least \<^verbatim>\<open>int64\<close>
  is printed correctly) and gets a leading minus sign.
\<close>

definition FormatInt :: "int64 \<Rightarrow> string" where
  "FormatInt i =
     (if sint i < 0 then CHR ''-'' # format_bits (uint (- i)) []
      else format_bits (uint i) [])"

definition Itoa :: "go_int \<Rightarrow> string" where
  "Itoa i = FormatInt i"

subsection \<open>crypto/sha256\<close>

text \<open>
  SHA-256 as \<^verbatim>\<open>crypto/sha256\<close> computes it (FIPS 180-4). The 32-bit words of the
  algorithm are integers in \<open>[0, 2 ^ 32)\<close> with the wrap-around of every addition
  written out as \<open>mod 2 ^ 32\<close>.
\<close>

definition rotr :: "nat \<Rightarrow> int \<Rightarrow> int" where
  "rotr n x = (x div 2 ^ n) OR ((x * 2 ^ (32 - n)) mod 2 ^ 32)"

definition sha256_K :: "int list" where
  "sha256_K =
    [0x428A2F98, 0x71374491, 0xB5C0FBCF, 0xE9B5DBA5, 0x3956C25B, 0x59F111F1,
     0x923F82A4, 0xAB1C5ED5, 0xD807AA98, 0x12835B01, 0x243185BE, 0x550C7DC3,
     0x72BE5D74, 0x80DEB1FE, 0x9BDC06A7, 0xC19BF174, 0xE49B69C1, 0xEFBE4786,
     0x0FC19DC6, 0x240CA1CC, 0x2DE92C6F, 0x4A7484AA, 0x5CB0A9DC, 0x76F988DA,
     0x983E5152, 0xA831C66D, 0xB00327C8, 0xBF597FC7, 0xC6E00BF3, 0xD5A79147,
     0x06CA6351, 0x14292967, 0x27B70A85, 0x2E1B2138, 0x4D2C6DFC, 0x53380D13,
     0x650A7354, 0x766A0ABB, 0x81C2C92E, 0x92722C85, 0xA2BFE8A1, 0xA81A664B,
     0xC24B8B70, 0xC76C51A3, 0xD192E819, 0xD6990624, 0xF40E3585, 0x106AA070,
     0x19A4C116, 0x1E376C08, 0x2748774C, 0x34B0BCB5, 0x391C0CB3, 0x4ED8AA4A,
     0x5B9CCA4F, 0x682E6FF3, 0x748F82EE, 0x78A5636F, 0x84C87814, 0x8CC70208,
     0x90BEFFFA, 0xA4506CEB, 0xBEF9A3F7, 0xC67178F2]"

type_synonym sha256_state = "int \<times> int \<times> int \<times> int \<times> int \<times> int \<times> int \<times> int"

definition sha256_init :: sha256_state where
  "sha256_init =
     (0x6A09E667, 0xBB67AE85, 0x3C6EF372, 0xA54FF53A,
      0x510E527F, 0x9B05688C, 0x1F83D9AB, 0x5BE0CD19)"

text \<open>Big-endian 32-bit words of a chunk, four bytes each.\<close>

fun sha256_words :: "int list \<Rightarrow> int list" where
  "sha256_words (a # b # c # d # bs) = (((a * 256 + b) * 256 + c) * 256 + d) # sha256_words bs"
| "sha256_words _ = []"

text \<open>
  The message schedule. The words computed so far are kept newest first, so that
  \<open>w[i-2]\<close>, \<open>w[i-7]\<close>, \<open>w[i-15]\<close> and \<open>w[i-16]\<close> are at positions 1, 6, 14 and 15.
\<close>

fun sha256_schedule :: "nat \<Rightarrow> int list \<Rightarrow> int list" where
  "sha256_schedule 0 rs = rs"
| "sha256_schedule (Suc k) rs =
     sha256_schedule k
       ((((rotr 17 (rs ! 1) XOR rotr 19 (rs ! 1) XOR (rs ! 1) div 2 ^ 10) + rs ! 6
          + (rotr 7 (rs ! 14) XOR rotr 18 (rs ! 14) XOR (rs ! 14) div 2 ^ 3) + rs ! 15)
         mod 2 ^ 32) # rs)"

fun sha256_round :: "int \<times> int \<Rightarrow> sha256_state \<Rightarrow> sha256_state" where
  "sha256_round (k, w) (a, b, c, d, e, f, g, h) =
     (let t1 = h + (rotr 6 e XOR rotr 11 e XOR rotr 25 e) + ((e AND f) XOR (NOT e AND g)) + k + w;
          t2 = (rotr 2 a XOR rotr 13 a XOR rotr 22 a) + ((a AND b) XOR (a AND c) XOR (b AND c))
      in ((t1 + t2) mod 2 ^ 32, a, b, c, (d + t1) mod 2 ^ 32, e, f, g))"

fun sha256_add :: "sha256_state \<Rightarrow> sha256_state \<Rightarrow> sha256_state" where
  "sha256_add (h0, h1, h2, h3, h4, h5, h6, h7) (a, b, c, d, e, f, g, h) =
     ((h0 + a) mod 2 ^ 32, (h1 + b) mod 2 ^ 32, (h2 + c) mod 2 ^ 32, (h3 + d) mod 2 ^ 32,
      (h4 + e) mod 2 ^ 32, (h5 + f) mod 2 ^ 32, (h6 + g) mod 2 ^ 32, (h7 + h) mod 2 ^ 32)"

text \<open>One 64-byte chunk.\<close>

definition sha256_block :: "sha256_state \<Rightarrow> int list \<Rightarrow> sha256_state" where
  "sha256_block hs p =
     sha256_add hs
       (fold sha256_round (zip sha256_K (rev (sha256_schedule 48 (rev (sha256_words p))))) hs)"

function sha256_blocks :: "sha256_state \<Rightarrow> int list \<Rightarrow> sha256_state" where
  "sha256_blocks hs p =
     (if length p < 64 then hs
      else sha256_blocks (sha256_block hs (take 64 p)) (drop 64 p))"
  by pat_completeness auto
termination
  by (relation "measure (\<lambda>(hs, p). length p)") auto

declare sha256_blocks.simps [simp del]

definition put_be :: "nat \<Rightarrow> int \<Rightarrow> int list" where
  "put_be k w = map (\<lambda>i. (w div 256 ^ i) mod 256) (rev [0..<k])"

text \<open>
  Padding: a byte \<open>0x80\<close>, zero bytes up to 56 modulo 64, and the length in bits as
  an unsigned 64-bit big-endian number (the shift by 3 wraps at 64 bits).
\<close>

definition sha256_pad :: "int list \<Rightarrow> int list" where
  "sha256_pad m =
     (let len = length m;
          t = (if len mod 64 < 56 then 56 - len mod 64 else 64 + 56 - len mod 64)
      in m @ 0x80 # replicate (t - 1) 0 @ put_be 8 ((int len * 8) mod 2 ^ 64))"

fun sha256_out :: "sha256_state \<Rightarrow> int list" where
  "sha256_out (h0, h1, h2, h3, h4, h5, h6, h7) =
     concat (map (put_be 4) [h0, h1, h2, h3, h4, h5, h6, h7])"

definition sha256 :: "byte list \<Rightarrow> byte list" where
  "sha256 m = map word_of_int (sha256_out (sha256_blocks sha256_init (sha256_pad (map uint m))))"

subsection \<open>encoding/hex, strings\<close>

definition hextable :: string where
  "hextable = ''0123456789abcdef''"

definition EncodeToString :: "byte list \<Rightarrow> string" where
  "EncodeToString src =
     concat (map (\<lambda>v. [hextable ! unat (drop_bit 4 v), hextable ! unat (v AND 0x0f)]) src)"

text \<open>The conversion \<^verbatim>\<open>[]byte(s)\<close>.\<close>

definition bytes :: "string \<Rightarrow> byte list" where
  "bytes s = map of_char s"

text \<open>
  \<^verbatim>\<open>strings.Repeat\<close> returns at once for the counts 0 and 1. It panics on a negative
  count and when the length of the result overflows an \<^verbatim>\<open>int\<close>. For the result it
  grows a \<^verbatim>\<open>strings.Builder\<close> to the whole length in one allocation, and the runtime
  panics (\<^verbatim>\<open>makeslice: len out of range\<close>) when that length is above \<^verbatim>\<open>maxAlloc\<close>,
  which is \<open>2 ^ 48\<close> bytes on the 64-bit targets. \<^verbatim>\<open>strings.HasPrefix\<close> compares the
  first \<^verbatim>\<open>len(prefix)\<close> bytes.
\<close>

datatype panic =
  NegativeRepeatCount | RepeatOverflow | MakesliceLenOutOfRange | IndexOutOfRange

definition maxAlloc :: int where
  "maxAlloc = 2 ^ 48"

text \<open>
  What a call does: it returns a value, it panics, or it never returns.
\<close>

datatype 'a outcome = Returns 'a | Panics panic | Diverges

definition Repeat :: "string \<Rightarrow> go_int \<Rightarrow> string outcome" where
  "Repeat s count =
     (if sint count = 0 then Returns []
      else if sint count = 1 then Returns s
      else if sint count < 0 then Panics NegativeRepeatCount
      else if int (length s) * sint count > 2 ^ 63 - 1 then Panics RepeatOverflow
      else if length s = 0 then Returns []
      else if int (length s) * sint count > maxAlloc then Panics MakesliceLenOutOfRange
      else Returns (concat (replicate (nat (sint count)) s)))"

definition HasPrefix :: "string \<Rightarrow> string \<Rightarrow> bool" where
  "HasPrefix s prefix \<longleftrightarrow> length prefix \<le> length s \<and> take (length prefix) s = prefix"

section \<open>The program\<close>

record Block =
  Timestamp :: int64
  Data :: string
  PrevBlockHash :: string
  Hash :: string
  Nonce :: go_int

text \<open>
  \<^verbatim>\<open>Blocks\<close> is a slice of pointers to blocks. No function of the program writes
  to a block after \<^verbatim>\<open>NewBlock\<close> has built it, so the blocks are kept by value.
\<close>

record Blockchain =
  Blocks :: "Block list"
  Difficulty :: go_int

definition calculateHash :: "int64 \<Rightarrow> string \<Rightarrow> string \<Rightarrow> go_int \<Rightarrow> string" where
  "calculateHash timestamp data prevHash nonce =
     (let record = FormatInt timestamp @ data @ prevHash @ Itoa nonce;
          hashed = sha256 (bytes record)
      in EncodeToString hashed)"

text \<open>
  The loop of \<^verbatim>\<open>mineBlock\<close>. It has no exit but the \<^verbatim>\<open>return\<close>, and
  \<^verbatim>\<open>nonce++\<close> wraps around at 64 bits: the loop need not end, and a run that
  never returns is the value \<open>None\<close>.
\<close>

partial_function (option) mine_loop ::
  "string \<Rightarrow> int64 \<Rightarrow> string \<Rightarrow> string \<Rightarrow> go_int \<Rightarrow> (go_int \<times> string) option" where
  "mine_loop target timestamp data prevHash nonce =
     (let hash = calculateHash timestamp data prevHash nonce
      in if HasPrefix hash target then Some (nonce, hash)
         else mine_loop target timestamp data prevHash (nonce + 1))"

definition mineBlock :: "go_int \<Rightarrow> int64 \<Rightarrow> string \<Rightarrow> string \<Rightarrow> (go_int \<times> string) outcome" where
  "mineBlock difficulty timestamp data prevHash =
     (case Repeat ''0'' difficulty of
        Panics e \<Rightarrow> Panics e
      | Diverges \<Rightarrow> Diverges
      | Returns target \<Rightarrow>
          (case mine_loop target timestamp data prevHash 0 of
             None \<Rightarrow> Diverges
           | Some (nonce, hash) \<Rightarrow> Returns (nonce, hash)))"

text \<open>
  \<^verbatim>\<open>NewBlock\<close> reads the clock. The reading, \<^verbatim>\<open>time.Now().Unix()\<close>, is the
  argument \<open>now\<close> of the model.
\<close>

definition NewBlock :: "int64 \<Rightarrow> string \<Rightarrow> string \<Rightarrow> go_int \<Rightarrow> Block outcome" where
  "NewBlock now data prevHash difficulty =
     (let timestamp = now
      in case mineBlock difficulty timestamp data prevHash of
           Panics e \<Rightarrow> Panics e
         | Diverges \<Rightarrow> Diverges
         | Returns (nonce, hash) \<Rightarrow>
             Returns \<lparr>Timestamp = timestamp, Data = data, PrevBlockHash = prevHash,
                      Hash = hash, Nonce = nonce\<rparr>)"

definition NewGenesisBlock :: "int64 \<Rightarrow> go_int \<Rightarrow> Block outcome" where
  "NewGenesisBlock now difficulty = NewBlock now ''Genesis Block'' [] difficulty"

definition NewBlockchain :: "int64 \<Rightarrow> go_int \<Rightarrow> Blockchain outcome" where
  "NewBlockchain now difficulty =
     (case NewGenesisBlock now difficulty of
        Panics e \<Rightarrow> Panics e
      | Diverges \<Rightarrow> Diverges
      | Returns genesisBlock \<Rightarrow>
          Returns \<lparr>Blocks = [genesisBlock], Difficulty = difficulty\<rparr>)"

text \<open>
  \<^verbatim>\<open>bc.Blocks[len(bc.Blocks)-1]\<close> panics on an empty slice. The method changes
  the chain in place; the model returns the chain after the call.
\<close>

definition AddBlock :: "int64 \<Rightarrow> Blockchain \<Rightarrow> string \<Rightarrow> Blockchain outcome" where
  "AddBlock now bc data =
     (if Blocks bc = [] then Panics IndexOutOfRange
      else let prevBlock = last (Blocks bc)
           in case NewBlock now data (Hash prevBlock) (Difficulty bc) of
                Panics e \<Rightarrow> Panics e
              | Diverges \<Rightarrow> Diverges
              | Returns newBlock \<Rightarrow> Returns (bc\<lparr>Blocks := Blocks bc @ [newBlock]\<rparr>))"

text \<open>
  The chains the program can hold: what \<^verbatim>\<open>NewBlockchain\<close> returned, and what
  \<^verbatim>\<open>AddBlock\<close> made of such a chain, at any clock readings and with any data.
\<close>

inductive produced :: "Blockchain \<Rightarrow> bool" where
  create: "NewBlockchain now difficulty = Returns bc \<Longrightarrow> produced bc"
| append: "produced bc \<Longrightarrow> AddBlock now bc data = Returns bc' \<Longrightarrow> produced bc'"

section \<open>Notions of the specification\<close>

text \<open>The number of leading \<open>0\<close> characters of a hex string.\<close>

definition leading_zeros :: "string \<Rightarrow> nat" where
  "leading_zeros h = length (takeWhile (\<lambda>c. c = CHR ''0'') h)"

text \<open>The shape of a digest: 64 lowercase hexadecimal digits.\<close>

definition hex64 :: "string \<Rightarrow> bool" where
  "hex64 h \<longleftrightarrow> length h = 64 \<and> list_all (\<lambda>c. c \<in> set ''0123456789abcdef'') h"

text \<open>
  The digest as the specification words it: the SHA-256 hash, in lowercase hex, of the
  base-10 text of the timestamp, the payload, the previous hash and the base-10 text
  of the nonce, in this order. The base-10 text of an integer is a minus sign for a
  negative one and the digits of its absolute value, most significant first; the
  character of a digit is the one at its place after \<open>0\<close>, which has the code 48.
\<close>

definition decimal_digit :: "int \<Rightarrow> char" where
  "decimal_digit d = char_of (48 + d)"

function decimal_digits :: "int \<Rightarrow> string" where
  "decimal_digits n =
     (if n < 10 then [decimal_digit n]
      else decimal_digits (n div 10) @ [decimal_digit (n mod 10)])"
  by pat_completeness auto
termination
  by (relation "measure nat") auto

declare decimal_digits.simps [simp del]

definition decimal_text :: "int \<Rightarrow> string" where
  "decimal_text i = (if i < 0 then CHR ''-'' # decimal_digits (- i) else decimal_digits i)"

definition hex_digit :: "nat \<Rightarrow> char" where
  "hex_digit n = (if n < 10 then char_of (48 + n) else char_of (87 + n))"

definition lowercase_hex :: "byte list \<Rightarrow> string" where
  "lowercase_hex bs = concat (map (\<lambda>b. [hex_digit (unat b div 16), hex_digit (unat b mod 16)]) bs)"

definition digest_spec :: "int64 \<Rightarrow> string \<Rightarrow> string \<Rightarrow> go_int \<Rightarrow> string" where
  "digest_spec timestamp payload prev_hash nonce =
     lowercase_hex
       (sha256 (bytes (decimal_text (sint timestamp) @ payload @ prev_hash @ decimal_text (sint nonce))))"

text \<open>The number a base-10 text denotes, read digit by digit.\<close>

definition decimal_value :: "string \<Rightarrow> int" where
  "decimal_value s = foldl (\<lambda>v c. 10 * v + (of_char c - 48)) 0 s"

section \<open>A run of the program\<close>

text \<open>
  A chain of difficulty 2, created at the clock reading 1700000003, to which \<open>A\<close>
  is appended at 1700000126 and \<open>B\<close> at 1700000426. The searches end at the nonces
  2, 1 and 1.
\<close>

definition run_genesis :: Block where
  "run_genesis =
     \<lparr>Timestamp = 1700000003, Data = ''Genesis Block'', PrevBlockHash = [],
      Hash = ''005d3c19901572a3938e71604d20683cede6da288b9da808c0bdf02347ace098'',
      Nonce = 2\<rparr>"

definition run_block_A :: Block where
  "run_block_A =
     \<lparr>Timestamp = 1700000126, Data = ''A'',
      PrevBlockHash = ''005d3c19901572a3938e71604d20683cede6da288b9da808c0bdf02347ace098'',
      Hash = ''002833d82eba2e0201cfac6486d2d6a6df9077f4d04104457e493e0b3bb9e625'',
      Nonce = 1\<rparr>"

definition run_block_B :: Block where
  "run_block_B =
     \<lparr>Timestamp = 1700000426, Data = ''B'',
      PrevBlockHash = ''002833d82eba2e0201cfac6486d2d6a6df9077f4d04104457e493e0b3bb9e625'',
      Hash = ''00300b51b5e2010aa8aa96821ebd50f2c86a90db3af77757095212e498e167cd'',
      Nonce = 1\<rparr>"

definition run_chain0 :: Blockchain where
  "run_chain0 = \<lparr>Blocks = [run_genesis], Difficulty = 2\<rparr>"

definition run_chain1 :: Blockchain where
  "run_chain1 = \<lparr>Blocks = [run_genesis, run_block_A], Difficulty = 2\<rparr>"

definition run_chain2 :: Blockchain where
  "run_chain2 = \<lparr>Blocks = [run_genesis, run_block_A, run_block_B], Difficulty = 2\<rparr>"

section \<open>The library functions\<close>

lemma sha256_abc:
  "EncodeToString (sha256 (bytes ''abc'')) =
     ''ba7816bf8f01cfea414140de5dae2223b00361a396177a9cb410ff61f20015ad''"
  by code_simp

text \<open>A digest is 32 bytes, and its encoding 64 characters of the hex table.\<close>

lemma length_put_be: "length (put_be k w) = k"
  by (simp add: put_be_def)

lemma length_sha256_out: "length (sha256_out s) = 32"
  by (cases s rule: sha256_out.cases) (simp add: length_put_be)

lemma length_sha256: "length (sha256 m) = 32"
  by (simp add: sha256_def length_sha256_out)

lemma length_EncodeToString: "length (EncodeToString src) = 2 * length src"
  by (induction src) (simp_all add: EncodeToString_def)

lemma unat_high_nibble: "unat (drop_bit 4 (v :: byte)) = unat v div 16"
  by (simp add: drop_bit_eq_div unat_div)

lemma unat_low_nibble: "unat ((v :: byte) AND 0x0f) = unat v mod 16"
proof -
  have "unat (v AND 0x0f) = unat v AND 15"
    by (simp add: unsigned_and_eq)
  also have "\<dots> = take_bit 4 (unat v)"
    by (simp add: take_bit_eq_mask mask_eq_exp_minus_1)
  also have "\<dots> = unat v mod 16"
    by (simp add: take_bit_eq_mod)
  finally show ?thesis .
qed

lemma high_nibble_less: "unat (drop_bit 4 (v :: byte)) < 16"
proof -
  have "unat v < 256"
    using unsigned_less [of v, where 'a = nat] by simp
  then have "unat v div 16 < 16"
    by arith
  then show ?thesis
    by (simp only: unat_high_nibble)
qed

lemma low_nibble_less: "unat ((v :: byte) AND 0x0f) < 16"
  by (simp add: unat_low_nibble)

lemma hextable_nth: "n < 16 \<Longrightarrow> hextable ! n \<in> set hextable"
  by (rule nth_mem) (simp add: hextable_def)

lemma set_EncodeToString: "set (EncodeToString src) \<subseteq> set hextable"
  by (induction src) (simp_all add: EncodeToString_def hextable_nth high_nibble_less low_nibble_less)

lemma hex64_EncodeToString: "length src = 32 \<Longrightarrow> hex64 (EncodeToString src)"
  unfolding hex64_def
proof (intro conjI)
  assume "length src = 32"
  then show "length (EncodeToString src) = 64"
    by (simp add: length_EncodeToString)
  show "list_all (\<lambda>c. c \<in> set ''0123456789abcdef'') (EncodeToString src)"
    using set_EncodeToString [of src] unfolding list_all_iff hextable_def by blast
qed

lemma hex64_calculateHash: "hex64 (calculateHash timestamp data prevHash nonce)"
  by (simp add: calculateHash_def hex64_EncodeToString length_sha256)

lemma length_calculateHash: "length (calculateHash timestamp data prevHash nonce) = 64"
  using hex64_calculateHash [of timestamp data prevHash nonce] by (simp add: hex64_def)

text \<open>
  \<^verbatim>\<open>FormatInt\<close> writes the base-10 text of the specification, and
  \<^verbatim>\<open>EncodeToString\<close> its lowercase hex.
\<close>

lemma digit_char_table:
  "list_all (\<lambda>d. digit_char d = decimal_digit d) [0, 1, 2, 3, 4, 5, 6, 7, 8, 9]"
  by code_simp

lemma digit_char_decimal:
  assumes "0 \<le> d" and "d < 10"
  shows "digit_char d = decimal_digit d"
proof -
  from assms have "d \<in> set [0, 1, 2, 3, 4, 5, 6, 7, 8, 9]"
    by (simp del: insert_iff) (auto, arith)
  with digit_char_table show ?thesis
    unfolding list_all_iff by blast
qed

lemma format_bits_decimal: "0 \<le> u \<Longrightarrow> format_bits u acc = decimal_digits u @ acc"
proof (induction u acc rule: format_bits.induct)
  case (1 u acc)
  show ?case
  proof (cases "u < 10")
    case True
    with "1.prems" show ?thesis
      by (simp add: format_bits.simps [of u] decimal_digits.simps [of u] digit_char_decimal)
  next
    case False
    with "1.prems" have "format_bits (u div 10) (digit_char (u mod 10) # acc) =
        decimal_digits (u div 10) @ digit_char (u mod 10) # acc"
      by (intro "1.IH") simp_all
    moreover have "digit_char (u mod 10) = decimal_digit (u mod 10)"
      by (rule digit_char_decimal) simp_all
    ultimately show ?thesis
      using False by (simp add: format_bits.simps [of u] decimal_digits.simps [of u])
  qed
qed

lemma uint_minus_negative:
  fixes i :: int64
  assumes "sint i < 0"
  shows "uint (- i) = - sint i"
proof -
  have "- i = word_of_int (- sint i)"
    by simp
  then have "uint (- i) = uint (word_of_int (- sint i) :: int64)"
    by (rule arg_cong)
  then have "uint (- i) = (- sint i) mod 2 ^ 64"
    by (simp only: uint_word_of_int) simp
  moreover have "- (2 ^ 63) \<le> sint i"
    using sint_ge [of i] by simp
  ultimately show ?thesis
    using assms by simp
qed

lemma uint_nonnegative_sint:
  fixes i :: int64
  assumes "0 \<le> sint i"
  shows "uint i = sint i"
proof -
  have "sint i < 2 ^ 64"
    using sint_lt [of i] by simp
  with assms have "take_bit 64 (sint i) = sint i"
    by (simp add: take_bit_int_eq_self)
  then show ?thesis
    using uint_sint [of i] by simp
qed

lemma FormatInt_decimal: "FormatInt i = decimal_text (sint i)"
proof (cases "sint i < 0")
  case True
  then have "uint (- i) = - sint i"
    by (rule uint_minus_negative)
  moreover have "0 \<le> uint (- i)"
    by simp
  ultimately show ?thesis
    using True by (simp add: FormatInt_def decimal_text_def format_bits_decimal)
next
  case False
  then have "uint i = sint i"
    by (simp add: uint_nonnegative_sint)
  moreover have "0 \<le> uint i"
    by simp
  ultimately show ?thesis
    using False by (simp add: FormatInt_def decimal_text_def format_bits_decimal)
qed

lemma hex_digit_table: "list_all (\<lambda>n. hextable ! n = hex_digit n) [0..<16]"
  by code_simp

lemma hex_digit_hextable: "n < 16 \<Longrightarrow> hextable ! n = hex_digit n"
  using hex_digit_table by (simp add: list_all_iff)

lemma EncodeToString_lowercase_hex: "EncodeToString src = lowercase_hex src"
proof -
  have "hextable ! unat (drop_bit 4 v) = hex_digit (unat v div 16)" for v :: byte
    using high_nibble_less [of v] by (simp add: hex_digit_hextable unat_high_nibble)
  moreover have "hextable ! unat (v AND 0x0f) = hex_digit (unat v mod 16)" for v :: byte
    using low_nibble_less [of v] by (simp add: hex_digit_hextable unat_low_nibble)
  ultimately show ?thesis
    by (simp add: EncodeToString_def lowercase_hex_def)
qed

text \<open>
  The base-10 text of a number denotes that number. Two more test vectors of SHA-256,
  the empty message and one of two chunks, and some texts of \<^verbatim>\<open>FormatInt\<close>.
\<close>

lemma decimal_digit_value:
  assumes "0 \<le> d" and "d < 10"
  shows "of_char (decimal_digit d) - 48 = d"
  using assms by (simp add: decimal_digit_def)

lemma decimal_value_snoc:
  "decimal_value (s @ [c]) = 10 * decimal_value s + (of_char c - 48)"
  by (simp add: decimal_value_def)

lemma decimal_value_digits: "0 \<le> n \<Longrightarrow> decimal_value (decimal_digits n) = n"
proof (induction n rule: decimal_digits.induct)
  case (1 n)
  show ?case
  proof (cases "n < 10")
    case True
    with "1.prems" have "decimal_value [decimal_digit n] = n"
      using decimal_value_snoc [of "[]" "decimal_digit n"]
      by (simp add: decimal_value_def decimal_digit_value)
    with True show ?thesis
      by (simp add: decimal_digits.simps [of n])
  next
    case False
    with "1.prems" have "decimal_value (decimal_digits (n div 10)) = n div 10"
      by (intro "1.IH") simp_all
    moreover have "of_char (decimal_digit (n mod 10)) - 48 = n mod 10"
      by (rule decimal_digit_value) simp_all
    ultimately have "decimal_value (decimal_digits (n div 10) @ [decimal_digit (n mod 10)]) = n"
      by (simp add: decimal_value_snoc)
    with False show ?thesis
      by (simp add: decimal_digits.simps [of n])
  qed
qed

lemma sha256_empty:
  "EncodeToString (sha256 (bytes [])) =
     ''e3b0c44298fc1c149afbf4c8996fb92427ae41e4649b934ca495991b7852b855''"
  by code_simp

lemma sha256_two_chunks:
  "EncodeToString (sha256 (bytes ''abcdbcdecdefdefgefghfghighijhijkijkljklmklmnlmnomnopnopq'')) =
     ''248d6a61d20638b8e5c026930c3e6039a33ce45964ff2167f6ecedd419db06c1''"
  by code_simp

lemma FormatInt_examples:
  "FormatInt 1700000003 = ''1700000003''"
  "FormatInt 0 = ''0''"
  "FormatInt (- 5) = ''-5''"
  "FormatInt (- 9223372036854775808) = ''-9223372036854775808''"
  by code_simp+

section \<open>The search for a nonce\<close>

text \<open>
  What the loop returns is a nonce with its digest, and the digest has the prefix; no
  counter value the loop passed before has one. The loop returns exactly when some
  64-bit nonce has a digest with the prefix.
\<close>

lemma mine_loop_match_aux:
  assumes "mine_loop target timestamp data prevHash start = Some r"
  shows "snd r = calculateHash timestamp data prevHash (fst r) \<and> HasPrefix (snd r) target"
  using assms
proof (rule mine_loop.raw_induct [where P = "\<lambda>target timestamp data prevHash start r.
    snd r = calculateHash timestamp data prevHash (fst r) \<and> HasPrefix (snd r) target", rotated 1])
  fix f target timestamp data prevHash start and r :: "go_int \<times> string"
  assume IH: "\<And>target timestamp data prevHash start r. f target timestamp data prevHash start = Some r \<Longrightarrow>
      snd r = calculateHash timestamp data prevHash (fst r) \<and> HasPrefix (snd r) target"
    and eq: "(let hash = calculateHash timestamp data prevHash start
          in if HasPrefix hash target then Some (start, hash)
             else f target timestamp data prevHash (start + 1)) = Some r"
  show "snd r = calculateHash timestamp data prevHash (fst r) \<and> HasPrefix (snd r) target"
  proof (cases "HasPrefix (calculateHash timestamp data prevHash start) target")
    case True
    with eq show ?thesis by (auto simp add: Let_def)
  next
    case False
    with eq have "f target timestamp data prevHash (start + 1) = Some r"
      by (simp add: Let_def)
    then show ?thesis by (rule IH)
  qed
qed

lemma mine_loop_match:
  assumes "mine_loop target timestamp data prevHash start = Some (nonce, hash)"
  shows "hash = calculateHash timestamp data prevHash nonce \<and> HasPrefix hash target"
  using mine_loop_match_aux [OF assms] by auto

lemma mine_loop_first_aux:
  assumes "mine_loop target timestamp data prevHash start = Some r"
  shows "\<forall>m. unat (m - start) < unat (fst r - start) \<longrightarrow>
           \<not> HasPrefix (calculateHash timestamp data prevHash m) target"
  using assms
proof (rule mine_loop.raw_induct [where P = "\<lambda>target timestamp data prevHash start r.
    \<forall>m. unat (m - start) < unat (fst r - start) \<longrightarrow>
         \<not> HasPrefix (calculateHash timestamp data prevHash m) target", rotated 1])
  fix f target timestamp data prevHash and start :: go_int and r :: "go_int \<times> string"
  assume IH: "\<And>target timestamp data prevHash start r. f target timestamp data prevHash start = Some r \<Longrightarrow>
      \<forall>m. unat (m - start) < unat (fst r - start) \<longrightarrow>
          \<not> HasPrefix (calculateHash timestamp data prevHash m) target"
    and eq: "(let hash = calculateHash timestamp data prevHash start
          in if HasPrefix hash target then Some (start, hash)
             else f target timestamp data prevHash (start + 1)) = Some r"
  show "\<forall>m. unat (m - start) < unat (fst r - start) \<longrightarrow>
          \<not> HasPrefix (calculateHash timestamp data prevHash m) target"
  proof (cases "HasPrefix (calculateHash timestamp data prevHash start) target")
    case True
    with eq have "fst r = start" by (auto simp add: Let_def)
    then show ?thesis by simp
  next
    case False
    with eq have "f target timestamp data prevHash (start + 1) = Some r"
      by (simp add: Let_def)
    then have rec: "\<forall>m. unat (m - (start + 1)) < unat (fst r - (start + 1)) \<longrightarrow>
        \<not> HasPrefix (calculateHash timestamp data prevHash m) target"
      by (rule IH)
    show ?thesis
    proof (intro allI impI)
      fix m
      assume less: "unat (m - start) < unat (fst r - start)"
      show "\<not> HasPrefix (calculateHash timestamp data prevHash m) target"
      proof (cases "m = start")
        case True
        with False show ?thesis by simp
      next
        case ne: False
        then have m0: "m - start \<noteq> 0" by simp
        then have "unat (m - start - 1) = unat (m - start) - 1"
          by (rule unat_minus_one)
        moreover have r0: "fst r - start \<noteq> 0"
          using less by auto
        then have "unat (fst r - start - 1) = unat (fst r - start) - 1"
          by (rule unat_minus_one)
        moreover have "0 < unat (m - start)"
          using m0 by (simp add: unat_gt_0)
        ultimately have "unat (m - start - 1) < unat (fst r - start - 1)"
          using less by arith
        then have "unat (m - (start + 1)) < unat (fst r - (start + 1))"
          by (simp add: diff_diff_eq)
        with rec show ?thesis by blast
      qed
    qed
  qed
qed

lemma mine_loop_first:
  assumes "mine_loop target timestamp data prevHash 0 = Some (nonce, hash)"
    and "unat m < unat nonce"
  shows "\<not> HasPrefix (calculateHash timestamp data prevHash m) target"
  using mine_loop_first_aux [OF assms(1)] assms(2) by simp

lemma mine_loop_finds:
  "HasPrefix (calculateHash timestamp data prevHash (start + of_nat k)) target \<Longrightarrow>
     \<exists>r. mine_loop target timestamp data prevHash start = Some r"
proof (induction k arbitrary: start)
  case 0
  then show ?case by (subst mine_loop.simps) simp
next
  case (Suc k)
  show ?case
  proof (cases "HasPrefix (calculateHash timestamp data prevHash start) target")
    case True
    then show ?thesis by (subst mine_loop.simps) simp
  next
    case False
    from Suc.prems have "HasPrefix (calculateHash timestamp data prevHash (start + 1 + of_nat k)) target"
      by (simp add: add.assoc)
    then obtain r where "mine_loop target timestamp data prevHash (start + 1) = Some r"
      using Suc.IH by blast
    with False show ?thesis by (subst mine_loop.simps) simp
  qed
qed

lemma mine_loop_Some_iff:
  "(\<exists>r. mine_loop target timestamp data prevHash 0 = Some r) \<longleftrightarrow>
     (\<exists>n. HasPrefix (calculateHash timestamp data prevHash n) target)"
proof
  assume "\<exists>r. mine_loop target timestamp data prevHash 0 = Some r"
  then obtain nonce hash where "mine_loop target timestamp data prevHash 0 = Some (nonce, hash)"
    by auto
  then have "HasPrefix (calculateHash timestamp data prevHash nonce) target"
    using mine_loop_match by blast
  then show "\<exists>n. HasPrefix (calculateHash timestamp data prevHash n) target" ..
next
  assume "\<exists>n. HasPrefix (calculateHash timestamp data prevHash n) target"
  then obtain n where "HasPrefix (calculateHash timestamp data prevHash n) target" ..
  then have "HasPrefix (calculateHash timestamp data prevHash (0 + of_nat (unat n))) target"
    by simp
  then show "\<exists>r. mine_loop target timestamp data prevHash 0 = Some r"
    by (rule mine_loop_finds)
qed

section \<open>Blocks and chains\<close>

lemma concat_replicate_zero: "concat (replicate n ''0'') = replicate n CHR ''0''"
  by (induction n) simp_all

lemma Repeat_zero:
  "Repeat ''0'' difficulty =
     (if sint difficulty < 0 then Panics NegativeRepeatCount
      else if maxAlloc < sint difficulty then Panics MakesliceLenOutOfRange
      else Returns (replicate (nat (sint difficulty)) CHR ''0''))"
proof -
  have "sint difficulty < 2 ^ 63"
    using sint_lt [of difficulty] by simp
  moreover have "(1 :: int) \<le> maxAlloc"
    by (simp add: maxAlloc_def)
  ultimately show ?thesis
    by (simp add: Repeat_def concat_replicate_zero)
qed

lemma HasPrefix_zeros: "HasPrefix h (replicate n CHR ''0'') \<longleftrightarrow> n \<le> leading_zeros h"
proof (induction h arbitrary: n)
  case Nil
  show ?case
    by (simp add: HasPrefix_def leading_zeros_def)
next
  case (Cons x xs)
  show ?case
  proof (cases n)
    case 0
    then show ?thesis
      by (simp add: HasPrefix_def leading_zeros_def)
  next
    case (Suc k)
    have "HasPrefix (x # xs) (replicate (Suc k) CHR ''0'') \<longleftrightarrow>
        x = CHR ''0'' \<and> HasPrefix xs (replicate k CHR ''0'')"
      by (auto simp add: HasPrefix_def)
    also have "\<dots> \<longleftrightarrow> x = CHR ''0'' \<and> k \<le> leading_zeros xs"
      by (simp add: Cons.IH)
    also have "\<dots> \<longleftrightarrow> Suc k \<le> leading_zeros (x # xs)"
      by (simp add: leading_zeros_def)
    finally show ?thesis
      using Suc by simp
  qed
qed

lemma mineBlock_Returns:
  "mineBlock difficulty timestamp data prevHash = Returns (nonce, hash) \<longleftrightarrow>
     0 \<le> sint difficulty \<and> sint difficulty \<le> maxAlloc \<and>
     mine_loop (replicate (nat (sint difficulty)) CHR ''0'') timestamp data prevHash 0 = Some (nonce, hash)"
  by (auto simp add: mineBlock_def Repeat_zero split: option.splits)

lemma mineBlock_Panics:
  "mineBlock difficulty timestamp data prevHash = Panics e \<longleftrightarrow>
     (sint difficulty < 0 \<and> e = NegativeRepeatCount) \<or>
     (maxAlloc < sint difficulty \<and> e = MakesliceLenOutOfRange)"
  using maxAlloc_def by (auto simp add: mineBlock_def Repeat_zero split: option.splits)

lemma mineBlock_Diverges:
  "mineBlock difficulty timestamp data prevHash = Diverges \<longleftrightarrow>
     0 \<le> sint difficulty \<and> sint difficulty \<le> maxAlloc \<and>
     mine_loop (replicate (nat (sint difficulty)) CHR ''0'') timestamp data prevHash 0 = None"
  by (auto simp add: mineBlock_def Repeat_zero split: option.splits)

lemma mineBlock_sealed:
  assumes "mineBlock difficulty timestamp data prevHash = Returns (nonce, hash)"
  shows "0 \<le> sint difficulty"
    and "hash = calculateHash timestamp data prevHash nonce"
    and "nat (sint difficulty) \<le> leading_zeros hash"
proof -
  from assms show d: "0 \<le> sint difficulty"
    by (simp add: mineBlock_Returns)
  from assms have "mine_loop (replicate (nat (sint difficulty)) CHR ''0'') timestamp data prevHash 0
      = Some (nonce, hash)"
    by (simp add: mineBlock_Returns)
  then have m: "hash = calculateHash timestamp data prevHash nonce \<and>
      HasPrefix hash (replicate (nat (sint difficulty)) CHR ''0'')"
    by (rule mine_loop_match)
  then show "hash = calculateHash timestamp data prevHash nonce" ..
  from m have "HasPrefix hash (replicate (nat (sint difficulty)) CHR ''0'')" ..
  then show "nat (sint difficulty) \<le> leading_zeros hash"
    by (simp only: HasPrefix_zeros)
qed

lemma NewBlock_Returns:
  "NewBlock now data prevHash difficulty = Returns b \<longleftrightarrow>
     mineBlock difficulty now data prevHash = Returns (Nonce b, Hash b) \<and>
     Timestamp b = now \<and> Data b = data \<and> PrevBlockHash b = prevHash"
  by (cases b) (auto simp add: NewBlock_def split: outcome.splits)

lemma NewBlockchain_Returns:
  "NewBlockchain now difficulty = Returns bc \<longleftrightarrow>
     (\<exists>g. NewBlock now ''Genesis Block'' [] difficulty = Returns g \<and>
          bc = \<lparr>Blocks = [g], Difficulty = difficulty\<rparr>)"
  by (auto simp add: NewBlockchain_def NewGenesisBlock_def split: outcome.splits)

lemma AddBlock_Returns:
  "AddBlock now bc data = Returns bc' \<longleftrightarrow>
     Blocks bc \<noteq> [] \<and>
     (\<exists>b. NewBlock now data (Hash (last (Blocks bc))) (Difficulty bc) = Returns b \<and>
          bc' = bc\<lparr>Blocks := Blocks bc @ [b]\<rparr>)"
  by (auto simp add: AddBlock_def split: outcome.splits)

lemma produced_nonempty: "produced bc \<Longrightarrow> Blocks bc \<noteq> []"
  by (induction rule: produced.induct) (auto simp add: NewBlockchain_Returns AddBlock_Returns)

text \<open>
  Every block of a chain is what the search returned for the block's own content at
  the chain's difficulty.
\<close>

lemma produced_sealed:
  "produced bc \<Longrightarrow> b \<in> set (Blocks bc) \<Longrightarrow>
     mineBlock (Difficulty bc) (Timestamp b) (Data b) (PrevBlockHash b) = Returns (Nonce b, Hash b)"
proof (induction arbitrary: b rule: produced.induct)
  case (create now difficulty bc)
  then show ?case
    by (auto simp add: NewBlockchain_Returns NewBlock_Returns)
next
  case (append bc now data bc')
  from append.hyps(2) obtain nb where
    nb: "NewBlock now data (Hash (last (Blocks bc))) (Difficulty bc) = Returns nb"
    and bc': "bc' = bc\<lparr>Blocks := Blocks bc @ [nb]\<rparr>"
    by (auto simp add: AddBlock_Returns)
  from append.prems bc' have "b \<in> set (Blocks bc) \<or> b = nb"
    by auto
  then show ?case
  proof
    assume "b \<in> set (Blocks bc)"
    then show ?thesis
      using append.IH bc' by simp
  next
    assume "b = nb"
    then show ?thesis
      using nb bc' by (simp add: NewBlock_Returns)
  qed
qed

lemma produced_difficulty: "produced bc \<Longrightarrow> 0 \<le> sint (Difficulty bc)"
proof -
  assume p: "produced bc"
  then have "last (Blocks bc) \<in> set (Blocks bc)"
    by (simp add: produced_nonempty)
  with p show ?thesis
    using produced_sealed mineBlock_sealed(1) by blast
qed

lemma produced_linked:
  "produced bc \<Longrightarrow>
     PrevBlockHash (Blocks bc ! 0) = [] \<and>
     (\<forall>i. 1 \<le> i \<and> i < length (Blocks bc) \<longrightarrow>
          PrevBlockHash (Blocks bc ! i) = Hash (Blocks bc ! (i - 1)))"
proof (induction rule: produced.induct)
  case (create now difficulty bc)
  then show ?case
    by (auto simp add: NewBlockchain_Returns NewBlock_Returns)
next
  case (append bc now data bc')
  from append.hyps(2) obtain nb where
    nb: "NewBlock now data (Hash (last (Blocks bc))) (Difficulty bc) = Returns nb"
    and bc': "bc' = bc\<lparr>Blocks := Blocks bc @ [nb]\<rparr>"
    by (auto simp add: AddBlock_Returns)
  have ne: "Blocks bc \<noteq> []"
    using append.hyps(1) by (rule produced_nonempty)
  have prev: "PrevBlockHash nb = Hash (last (Blocks bc))"
    using nb by (simp add: NewBlock_Returns)
  have first: "PrevBlockHash (Blocks bc' ! 0) = []"
    using append.IH ne bc' by (simp add: nth_append)
  have rest: "PrevBlockHash (Blocks bc' ! i) = Hash (Blocks bc' ! (i - 1))"
    if i: "1 \<le> i" "i < length (Blocks bc')" for i
  proof (cases "i < length (Blocks bc)")
    case True
    then have "i - 1 < length (Blocks bc)"
      by simp
    with True i append.IH bc' show ?thesis
      by (simp add: nth_append)
  next
    case False
    with i bc' have "i = length (Blocks bc)"
      by simp
    with ne prev bc' show ?thesis
      by (simp add: nth_append last_conv_nth)
  qed
  from first rest show ?case
    by blast
qed

text \<open>
  A hash has 64 characters: no search for more than 64 zeros returns. A search for no
  zeros ends at its first test.
\<close>

lemma mine_loop_immediate:
  "HasPrefix (calculateHash timestamp data prevHash start) target \<Longrightarrow>
     mine_loop target timestamp data prevHash start =
       Some (start, calculateHash timestamp data prevHash start)"
  by (subst mine_loop.simps) simp

lemma leading_zeros_le_length: "leading_zeros h \<le> length h"
  by (simp add: leading_zeros_def length_takeWhile_le)

lemma mineBlock_zeros_le_64:
  assumes "mineBlock difficulty timestamp data prevHash = Returns (nonce, hash)"
  shows "sint difficulty \<le> 64"
proof -
  from assms have "nat (sint difficulty) \<le> leading_zeros hash"
    and "hash = calculateHash timestamp data prevHash nonce"
    by (rule mineBlock_sealed(3), rule mineBlock_sealed(2))
  then have "nat (sint difficulty) \<le> leading_zeros (calculateHash timestamp data prevHash nonce)"
    by simp
  also have "\<dots> \<le> 64"
    using leading_zeros_le_length [of "calculateHash timestamp data prevHash nonce"]
    by (simp add: length_calculateHash)
  finally show ?thesis
    by simp
qed

lemma mineBlock_too_difficult:
  assumes "64 < sint difficulty"
  shows "mineBlock difficulty timestamp data prevHash =
     (if sint difficulty \<le> maxAlloc then Diverges else Panics MakesliceLenOutOfRange)"
proof (cases "mineBlock difficulty timestamp data prevHash")
  case (Returns r)
  then have "sint difficulty \<le> 64"
    by (cases r) (auto dest: mineBlock_zeros_le_64)
  with assms show ?thesis
    by simp
next
  case (Panics e)
  with assms show ?thesis
    by (auto simp add: mineBlock_Panics)
next
  case Diverges
  then show ?thesis
    by (simp add: mineBlock_Diverges)
qed

lemma mineBlock_Returns_iff:
  "(\<exists>r. mineBlock difficulty timestamp data prevHash = Returns r) \<longleftrightarrow>
     0 \<le> sint difficulty \<and>
     (\<exists>n. nat (sint difficulty) \<le> leading_zeros (calculateHash timestamp data prevHash n))"
proof -
  have small: "sint difficulty \<le> maxAlloc"
    if "nat (sint difficulty) \<le> leading_zeros (calculateHash timestamp data prevHash n)" for n
  proof -
    have "leading_zeros (calculateHash timestamp data prevHash n) \<le> 64"
      using leading_zeros_le_length [of "calculateHash timestamp data prevHash n"]
      by (simp add: length_calculateHash)
    with that have "sint difficulty \<le> 64"
      by simp
    then show ?thesis
      by (simp add: maxAlloc_def)
  qed
  have "(\<exists>r. mineBlock difficulty timestamp data prevHash = Returns r) \<longleftrightarrow>
      0 \<le> sint difficulty \<and> sint difficulty \<le> maxAlloc \<and>
      (\<exists>r. mine_loop (replicate (nat (sint difficulty)) CHR ''0'') timestamp data prevHash 0 = Some r)"
    using mineBlock_Returns [of difficulty timestamp data prevHash] by auto
  also have "\<dots> \<longleftrightarrow> 0 \<le> sint difficulty \<and> sint difficulty \<le> maxAlloc \<and>
      (\<exists>n. nat (sint difficulty) \<le> leading_zeros (calculateHash timestamp data prevHash n))"
    by (simp only: mine_loop_Some_iff HasPrefix_zeros)
  also have "\<dots> \<longleftrightarrow> 0 \<le> sint difficulty \<and>
      (\<exists>n. nat (sint difficulty) \<le> leading_zeros (calculateHash timestamp data prevHash n))"
    using small by blast
  finally show ?thesis .
qed

lemma NewBlock_Panics:
  "NewBlock now data prevHash difficulty = Panics e \<longleftrightarrow>
     (sint difficulty < 0 \<and> e = NegativeRepeatCount) \<or>
     (maxAlloc < sint difficulty \<and> e = MakesliceLenOutOfRange)"
  using mineBlock_Panics [of difficulty now data prevHash e]
  by (auto simp add: NewBlock_def split: outcome.splits)

lemma NewBlockchain_Panics:
  "NewBlockchain now difficulty = Panics e \<longleftrightarrow>
     (sint difficulty < 0 \<and> e = NegativeRepeatCount) \<or>
     (maxAlloc < sint difficulty \<and> e = MakesliceLenOutOfRange)"
  using NewBlock_Panics [of now "''Genesis Block''" "[]" difficulty e]
  by (auto simp add: NewBlockchain_def NewGenesisBlock_def split: outcome.splits)

lemma AddBlock_Panics:
  "AddBlock now bc data = Panics e \<longleftrightarrow>
     (Blocks bc = [] \<and> e = IndexOutOfRange) \<or>
     (Blocks bc \<noteq> [] \<and> sint (Difficulty bc) < 0 \<and> e = NegativeRepeatCount) \<or>
     (Blocks bc \<noteq> [] \<and> maxAlloc < sint (Difficulty bc) \<and> e = MakesliceLenOutOfRange)"
  using NewBlock_Panics [of now data "Hash (last (Blocks bc))" "Difficulty bc" e]
  by (auto simp add: AddBlock_def split: outcome.splits)


text \<open>The difficulty of a chain of the program is at most 64.\<close>

lemma produced_difficulty_le_64: "produced bc \<Longrightarrow> sint (Difficulty bc) \<le> 64"
proof -
  assume p: "produced bc"
  then have "last (Blocks bc) \<in> set (Blocks bc)"
    by (simp add: produced_nonempty)
  with p show ?thesis
    using produced_sealed mineBlock_zeros_le_64 by blast
qed

text \<open>
  On a chain of the program \<^verbatim>\<open>AddBlock\<close> appends one block, or its search does not
  end.
\<close>

lemma AddBlock_outcome:
  assumes "produced bc"
  shows "AddBlock now bc data = Diverges \<or>
     (\<exists>b. AddBlock now bc data = Returns (bc\<lparr>Blocks := Blocks bc @ [b]\<rparr>))"
proof (cases "AddBlock now bc data")
  case (Returns bc')
  then show ?thesis
    by (auto simp add: AddBlock_Returns)
next
  case (Panics e)
  moreover from assms have "Blocks bc \<noteq> []" and "0 \<le> sint (Difficulty bc)"
    and "sint (Difficulty bc) \<le> maxAlloc"
    using produced_difficulty_le_64 [of bc]
    by (simp_all add: produced_nonempty produced_difficulty maxAlloc_def)
  ultimately show ?thesis
    by (simp add: AddBlock_Panics)
next
  case Diverges
  then show ?thesis
    by simp
qed

text \<open>
  The nonce \<^verbatim>\<open>mineBlock\<close> returns is the first value of its counter whose digest
  has the zeros. The counter runs through 0, 1, \<dots>, \<open>2 ^ 63 - 1\<close> and, wrapping, on
  through \<open>- 2 ^ 63\<close>, \<dots>, \<open>-1\<close>. So a returned nonce that is not negative is the least
  non-negative one with such a digest, and a negative nonce is returned only when no
  non-negative one has such a digest.
\<close>

lemma mineBlock_first:
  assumes "mineBlock difficulty timestamp data prevHash = Returns (nonce, hash)"
    and "unat m < unat nonce"
  shows "leading_zeros (calculateHash timestamp data prevHash m) < nat (sint difficulty)"
proof -
  from assms(1) have
    "mine_loop (replicate (nat (sint difficulty)) CHR ''0'') timestamp data prevHash 0 = Some (nonce, hash)"
    by (simp add: mineBlock_Returns)
  then have "\<not> HasPrefix (calculateHash timestamp data prevHash m)
      (replicate (nat (sint difficulty)) CHR ''0'')"
    using assms(2) by (rule mine_loop_first)
  then show ?thesis
    by (simp add: HasPrefix_zeros)
qed

lemma uint_negative_sint:
  fixes n :: go_int
  assumes "sint n < 0"
  shows "2 ^ 63 \<le> uint n"
proof -
  have "- (2 ^ 63) \<le> sint n"
    using sint_ge [of n] by simp
  moreover have "uint n = sint n mod 2 ^ 64"
    using uint_sint [of n] by (simp add: take_bit_eq_mod)
  moreover have "(sint n + 2 ^ 64) mod 2 ^ 64 = sint n + 2 ^ 64"
    using assms \<open>- (2 ^ 63) \<le> sint n\<close> by (intro mod_pos_pos_trivial) simp_all
  then have "sint n mod 2 ^ 64 = sint n + 2 ^ 64"
    by simp
  ultimately show ?thesis
    by simp
qed

lemma mineBlock_least_nonnegative:
  assumes "mineBlock difficulty timestamp data prevHash = Returns (nonce, hash)"
    and "0 \<le> sint nonce" and "0 \<le> sint m" and "sint m < sint nonce"
  shows "leading_zeros (calculateHash timestamp data prevHash m) < nat (sint difficulty)"
proof -
  from assms(2-4) have "uint m < uint nonce"
    by (simp add: uint_nonnegative_sint)
  then have "unat m < unat nonce"
    by (simp only: word_less_def [symmetric] word_less_nat_alt)
  with assms(1) show ?thesis
    by (rule mineBlock_first)
qed

lemma mineBlock_negative_nonce:
  assumes "mineBlock difficulty timestamp data prevHash = Returns (nonce, hash)"
    and "sint nonce < 0" and "0 \<le> sint m"
  shows "leading_zeros (calculateHash timestamp data prevHash m) < nat (sint difficulty)"
proof -
  have "sint m < 2 ^ 63"
    using sint_lt [of m] by simp
  with assms(3) have "uint m < 2 ^ 63"
    by (simp add: uint_nonnegative_sint)
  also have "\<dots> \<le> uint nonce"
    using assms(2) by (rule uint_negative_sint)
  finally have "uint m < uint nonce" .
  then have "unat m < unat nonce"
    by (simp only: word_less_def [symmetric] word_less_nat_alt)
  with assms(1) show ?thesis
    by (rule mineBlock_first)
qed

section \<open>The run, step by step\<close>

text \<open>The digests the three searches compute, in the order they compute them.\<close>

lemma run_genesis_digest_0:
  "calculateHash 1700000003 ''Genesis Block'' [] 0 =
     ''38309fffc6258b196fe72353fc8d689027767d60e6b3adeb93ebf232426f37a5''"
  by code_simp

lemma run_genesis_digest_1:
  "calculateHash 1700000003 ''Genesis Block'' [] 1 =
     ''0b5d5c104db43fd6d6a95a4dcf3789846df6933ad8d0d2c1c5690e71378fa560''"
  by code_simp

lemma run_genesis_digest_2:
  "calculateHash 1700000003 ''Genesis Block'' [] 2 =
     ''005d3c19901572a3938e71604d20683cede6da288b9da808c0bdf02347ace098''"
  by code_simp

lemma run_A_digest_0:
  "calculateHash 1700000126 ''A''
     ''005d3c19901572a3938e71604d20683cede6da288b9da808c0bdf02347ace098'' 0 =
     ''29d0cee66eb5e8e20a69294faf17c2b432d8622275cba677dc5d8acc6bc96501''"
  by code_simp

lemma run_A_digest_1:
  "calculateHash 1700000126 ''A''
     ''005d3c19901572a3938e71604d20683cede6da288b9da808c0bdf02347ace098'' 1 =
     ''002833d82eba2e0201cfac6486d2d6a6df9077f4d04104457e493e0b3bb9e625''"
  by code_simp

lemma run_B_digest_0:
  "calculateHash 1700000426 ''B''
     ''002833d82eba2e0201cfac6486d2d6a6df9077f4d04104457e493e0b3bb9e625'' 0 =
     ''4a9b5f0ff17c494acc685c74fdd38142d413b40010ada46725d4233526e9372c''"
  by code_simp

lemma run_B_digest_1:
  "calculateHash 1700000426 ''B''
     ''002833d82eba2e0201cfac6486d2d6a6df9077f4d04104457e493e0b3bb9e625'' 1 =
     ''00300b51b5e2010aa8aa96821ebd50f2c86a90db3af77757095212e498e167cd''"
  by code_simp

lemma Repeat_2: "Repeat ''0'' 2 = Returns ''00''"
  by code_simp

lemma run_mine_genesis:
  "mineBlock 2 1700000003 ''Genesis Block'' [] =
     Returns (2, ''005d3c19901572a3938e71604d20683cede6da288b9da808c0bdf02347ace098'')"
proof -
  have "mine_loop ''00'' 1700000003 ''Genesis Block'' [] 0 =
      Some (2, ''005d3c19901572a3938e71604d20683cede6da288b9da808c0bdf02347ace098'')"
    apply (subst mine_loop.simps, simp add: run_genesis_digest_0 HasPrefix_def)
    apply (subst mine_loop.simps, simp add: run_genesis_digest_1 HasPrefix_def)
    apply (subst mine_loop.simps, simp add: run_genesis_digest_2 HasPrefix_def)
    done
  then show ?thesis
    by (simp add: mineBlock_def Repeat_2)
qed

lemma run_mine_A:
  "mineBlock 2 1700000126 ''A''
     ''005d3c19901572a3938e71604d20683cede6da288b9da808c0bdf02347ace098'' =
     Returns (1, ''002833d82eba2e0201cfac6486d2d6a6df9077f4d04104457e493e0b3bb9e625'')"
proof -
  have "mine_loop ''00'' 1700000126 ''A''
      ''005d3c19901572a3938e71604d20683cede6da288b9da808c0bdf02347ace098'' 0 =
      Some (1, ''002833d82eba2e0201cfac6486d2d6a6df9077f4d04104457e493e0b3bb9e625'')"
    apply (subst mine_loop.simps, simp add: run_A_digest_0 HasPrefix_def)
    apply (subst mine_loop.simps, simp add: run_A_digest_1 HasPrefix_def)
    done
  then show ?thesis
    by (simp add: mineBlock_def Repeat_2)
qed

lemma run_mine_B:
  "mineBlock 2 1700000426 ''B''
     ''002833d82eba2e0201cfac6486d2d6a6df9077f4d04104457e493e0b3bb9e625'' =
     Returns (1, ''00300b51b5e2010aa8aa96821ebd50f2c86a90db3af77757095212e498e167cd'')"
proof -
  have "mine_loop ''00'' 1700000426 ''B''
      ''002833d82eba2e0201cfac6486d2d6a6df9077f4d04104457e493e0b3bb9e625'' 0 =
      Some (1, ''00300b51b5e2010aa8aa96821ebd50f2c86a90db3af77757095212e498e167cd'')"
    apply (subst mine_loop.simps, simp add: run_B_digest_0 HasPrefix_def)
    apply (subst mine_loop.simps, simp add: run_B_digest_1 HasPrefix_def)
    done
  then show ?thesis
    by (simp add: mineBlock_def Repeat_2)
qed

lemma run_create: "NewBlockchain 1700000003 2 = Returns run_chain0"
  by (simp add: NewBlockchain_def NewGenesisBlock_def NewBlock_def run_mine_genesis
      run_chain0_def run_genesis_def)

lemma run_append_A: "AddBlock 1700000126 run_chain0 ''A'' = Returns run_chain1"
  by (simp add: AddBlock_def NewBlock_def run_mine_A
      run_chain0_def run_chain1_def run_genesis_def run_block_A_def)

lemma run_append_B: "AddBlock 1700000426 run_chain1 ''B'' = Returns run_chain2"
  by (simp add: AddBlock_def NewBlock_def run_mine_B
      run_chain1_def run_chain2_def run_genesis_def run_block_A_def run_block_B_def)

lemma produced_run_chain0: "produced run_chain0"
  using run_create by (rule produced.create)

lemma produced_run_chain1: "produced run_chain1"
  using produced_run_chain0 run_append_A by (rule produced.append)

lemma produced_run_chain2: "produced run_chain2"
  using produced_run_chain1 run_append_B by (rule produced.append)

section \<open>The claims\<close>

text \<open>
  C1. In a chain made by \<^verbatim>\<open>NewBlockchain\<close> and any sequence of \<^verbatim>\<open>AddBlock\<close>
  calls, the stored hash of every block is the digest recomputed from the block's
  stored timestamp, data, previous hash and nonce.
\<close>

theorem block_hash_recomputable:
  assumes "produced bc" and "b \<in> set (Blocks bc)"
  shows "Hash b = calculateHash (Timestamp b) (Data b) (PrevBlockHash b) (Nonce b)"
proof -
  from assms have
    "mineBlock (Difficulty bc) (Timestamp b) (Data b) (PrevBlockHash b) = Returns (Nonce b, Hash b)"
    by (rule produced_sealed)
  then show ?thesis
    by (rule mineBlock_sealed(2))
qed

theorem block_hash_recomputable_witness:
  "produced run_chain2 \<and> run_block_B \<in> set (Blocks run_chain2) \<and>
   calculateHash 1700000426 ''B''
     ''002833d82eba2e0201cfac6486d2d6a6df9077f4d04104457e493e0b3bb9e625'' 1 =
     ''00300b51b5e2010aa8aa96821ebd50f2c86a90db3af77757095212e498e167cd''"
proof -
  have b: "run_block_B \<in> set (Blocks run_chain2)"
    by (simp add: run_chain2_def)
  from block_hash_recomputable [OF produced_run_chain2 b] produced_run_chain2 b
  show ?thesis
    by (simp add: run_block_B_def)
qed

text \<open>
  C2. In a chain of difficulty \<open>d\<close>, which is never negative, the hash of every block,
  the genesis block too, has at least \<open>d\<close> leading \<open>0\<close> characters.
\<close>

theorem block_hash_leading_zeros:
  assumes "produced bc" and "b \<in> set (Blocks bc)"
  shows "0 \<le> sint (Difficulty bc) \<and> sint (Difficulty bc) \<le> int (leading_zeros (Hash b))"
proof -
  from assms have sealed:
    "mineBlock (Difficulty bc) (Timestamp b) (Data b) (PrevBlockHash b) = Returns (Nonce b, Hash b)"
    by (rule produced_sealed)
  then have "0 \<le> sint (Difficulty bc)"
    by (rule mineBlock_sealed(1))
  moreover from sealed have "nat (sint (Difficulty bc)) \<le> leading_zeros (Hash b)"
    by (rule mineBlock_sealed(3))
  ultimately show ?thesis
    by simp
qed

theorem block_hash_leading_zeros_witness:
  "produced run_chain2 \<and> run_genesis \<in> set (Blocks run_chain2) \<and>
   sint (Difficulty run_chain2) = 2 \<and>
   2 \<le> int (leading_zeros ''005d3c19901572a3938e71604d20683cede6da288b9da808c0bdf02347ace098'')"
proof -
  have b: "run_genesis \<in> set (Blocks run_chain2)"
    by (simp add: run_chain2_def)
  have d: "sint (Difficulty run_chain2) = 2"
    by (simp add: run_chain2_def)
  from block_hash_leading_zeros [OF produced_run_chain2 b] produced_run_chain2 b d
  show ?thesis
    by (simp add: run_genesis_def)
qed

text \<open>
  C3. In such a chain the previous hash of the block at index \<open>i \<ge> 1\<close> is the hash of
  the block at index \<open>i - 1\<close>, and the previous hash of the genesis block, at index 0,
  is the empty string.
\<close>

theorem chain_linked:
  assumes "produced bc"
  shows "Blocks bc \<noteq> [] \<and> PrevBlockHash (Blocks bc ! 0) = [] \<and>
     (\<forall>i. 1 \<le> i \<and> i < length (Blocks bc) \<longrightarrow>
          PrevBlockHash (Blocks bc ! i) = Hash (Blocks bc ! (i - 1)))"
  using assms produced_nonempty [of bc] produced_linked [of bc] by simp

theorem chain_linked_witness:
  "produced run_chain2 \<and> length (Blocks run_chain2) = 3 \<and>
   PrevBlockHash (Blocks run_chain2 ! 0) = [] \<and>
   PrevBlockHash (Blocks run_chain2 ! 1) = Hash (Blocks run_chain2 ! 0) \<and>
   PrevBlockHash (Blocks run_chain2 ! 2) = Hash (Blocks run_chain2 ! 1)"
proof -
  have len: "length (Blocks run_chain2) = 3"
    by (simp add: run_chain2_def)
  note linked = chain_linked [OF produced_run_chain2]
  from linked have "PrevBlockHash (Blocks run_chain2 ! 0) = []"
    by simp
  moreover from linked len have "PrevBlockHash (Blocks run_chain2 ! 1) = Hash (Blocks run_chain2 ! (1 - 1))"
    by simp
  moreover from linked len have "PrevBlockHash (Blocks run_chain2 ! 2) = Hash (Blocks run_chain2 ! (2 - 1))"
    by simp
  ultimately show ?thesis
    using produced_run_chain2 len by simp
qed

text \<open>
  C5. The digest of \<^verbatim>\<open>calculateHash\<close> is the SHA-256 hash, in lowercase hex, of the
  base-10 text of the timestamp, the payload, the previous hash and the base-10 text of
  the nonce, concatenated in this order.
\<close>

theorem calculateHash_digest_spec:
  "calculateHash timestamp data prevHash nonce = digest_spec timestamp data prevHash nonce"
  by (simp add: calculateHash_def digest_spec_def Itoa_def FormatInt_decimal
      EncodeToString_lowercase_hex)

theorem calculateHash_digest_spec_witness:
  "digest_spec 1700000003 ''Genesis Block'' [] 2 =
     ''005d3c19901572a3938e71604d20683cede6da288b9da808c0bdf02347ace098''"
  using calculateHash_digest_spec [of 1700000003 "''Genesis Block''" "[]" 2]
  by (simp add: run_genesis_digest_2)




text \<open>
  C7. \<^verbatim>\<open>NewBlockchain\<close> does not return a chain at every difficulty \<open>d \<ge> 0\<close>: at
  difficulty 65 the search for the genesis block never ends, since a hash has 64
  characters.
\<close>

theorem NewBlockchain_65_diverges:
  "0 \<le> sint (65 :: go_int) \<and> NewBlockchain 1700000003 65 = Diverges"
proof -
  have "sint (65 :: go_int) \<le> maxAlloc"
    by (simp add: maxAlloc_def)
  then have "mineBlock 65 1700000003 ''Genesis Block'' [] = Diverges"
    using mineBlock_too_difficult [of 65 1700000003 "''Genesis Block''" "[]"] by simp
  then show ?thesis
    by (simp add: NewBlockchain_def NewGenesisBlock_def NewBlock_def)
qed

text \<open>
  C7, amended. At a difficulty \<open>d \<ge> 0\<close>, \<^verbatim>\<open>NewBlockchain\<close> returns a chain exactly
  when some nonce gives the genesis block a digest with \<open>d\<close> leading zeros: always at
  \<open>d = 0\<close>, never at \<open>d > 64\<close>. A chain it returns has exactly one block, the genesis
  block with the data \<open>Genesis Block\<close>, the empty previous hash, the clock reading as
  timestamp and the nonce and hash \<^verbatim>\<open>mineBlock\<close> returned at difficulty \<open>d\<close>, and it
  has the difficulty \<open>d\<close>. At a difficulty above \<^verbatim>\<open>maxAlloc\<close> it panics in
  \<^verbatim>\<open>strings.Repeat\<close>.
\<close>

theorem NewBlockchain_genesis:
  assumes "0 \<le> sint difficulty"
  shows "(\<forall>bc. NewBlockchain now difficulty = Returns bc \<longrightarrow>
        (\<exists>nonce hash.
            mineBlock difficulty now ''Genesis Block'' [] = Returns (nonce, hash) \<and>
            bc = \<lparr>Blocks = [\<lparr>Timestamp = now, Data = ''Genesis Block'', PrevBlockHash = [],
                               Hash = hash, Nonce = nonce\<rparr>],
                   Difficulty = difficulty\<rparr>)) \<and>
     ((\<exists>bc. NewBlockchain now difficulty = Returns bc) \<longleftrightarrow>
      (\<exists>n. sint difficulty \<le> int (leading_zeros (calculateHash now ''Genesis Block'' [] n)))) \<and>
     (difficulty = 0 \<longrightarrow> (\<exists>bc. NewBlockchain now difficulty = Returns bc)) \<and>
     (64 < sint difficulty \<longrightarrow> (\<forall>bc. NewBlockchain now difficulty \<noteq> Returns bc)) \<and>
     (maxAlloc < sint difficulty \<longrightarrow>
        NewBlockchain now difficulty = Panics MakesliceLenOutOfRange)"
proof (intro conjI impI allI)
  fix bc
  assume "NewBlockchain now difficulty = Returns bc"
  then obtain g where g: "NewBlock now ''Genesis Block'' [] difficulty = Returns g"
    and bc: "bc = \<lparr>Blocks = [g], Difficulty = difficulty\<rparr>"
    by (auto simp add: NewBlockchain_Returns)
  from g have "mineBlock difficulty now ''Genesis Block'' [] = Returns (Nonce g, Hash g)"
    and "g = \<lparr>Timestamp = now, Data = ''Genesis Block'', PrevBlockHash = [],
              Hash = Hash g, Nonce = Nonce g\<rparr>"
    by (simp_all add: NewBlock_Returns)
  with bc show "\<exists>nonce hash.
      mineBlock difficulty now ''Genesis Block'' [] = Returns (nonce, hash) \<and>
      bc = \<lparr>Blocks = [\<lparr>Timestamp = now, Data = ''Genesis Block'', PrevBlockHash = [],
                         Hash = hash, Nonce = nonce\<rparr>],
             Difficulty = difficulty\<rparr>"
    by metis
next
  have "(\<exists>bc. NewBlockchain now difficulty = Returns bc) \<longleftrightarrow>
      (\<exists>r. mineBlock difficulty now ''Genesis Block'' [] = Returns r)"
    by (cases "mineBlock difficulty now ''Genesis Block'' []")
      (auto simp add: NewBlockchain_def NewGenesisBlock_def NewBlock_def)
  also have "\<dots> \<longleftrightarrow>
      (\<exists>n. nat (sint difficulty) \<le> leading_zeros (calculateHash now ''Genesis Block'' [] n))"
    unfolding mineBlock_Returns_iff using assms by simp
  also have "\<dots> \<longleftrightarrow>
      (\<exists>n. sint difficulty \<le> int (leading_zeros (calculateHash now ''Genesis Block'' [] n)))"
    using assms by (simp add: nat_le_iff)
  finally show "(\<exists>bc. NewBlockchain now difficulty = Returns bc) \<longleftrightarrow>
      (\<exists>n. sint difficulty \<le> int (leading_zeros (calculateHash now ''Genesis Block'' [] n)))" .
next
  assume "difficulty = 0"
  then have "mineBlock difficulty now ''Genesis Block'' [] =
      Returns (0, calculateHash now ''Genesis Block'' [] 0)"
    by (simp add: mineBlock_Returns mine_loop_immediate HasPrefix_def maxAlloc_def)
  then show "\<exists>bc. NewBlockchain now difficulty = Returns bc"
    by (simp add: NewBlockchain_def NewGenesisBlock_def NewBlock_def)
next
  fix bc
  assume "64 < sint difficulty"
  then have "mineBlock difficulty now ''Genesis Block'' [] =
      (if sint difficulty \<le> maxAlloc then Diverges else Panics MakesliceLenOutOfRange)"
    by (rule mineBlock_too_difficult)
  then show "NewBlockchain now difficulty \<noteq> Returns bc"
    by (simp add: NewBlockchain_def NewGenesisBlock_def NewBlock_def split: if_splits)
next
  assume "maxAlloc < sint difficulty"
  then show "NewBlockchain now difficulty = Panics MakesliceLenOutOfRange"
    by (simp add: NewBlockchain_Panics)
qed

theorem NewBlockchain_genesis_witness:
  "0 \<le> sint (2 :: go_int) \<and>
   NewBlockchain 1700000003 2 = Returns run_chain0 \<and>
   mineBlock 2 1700000003 ''Genesis Block'' [] =
     Returns (2, ''005d3c19901572a3938e71604d20683cede6da288b9da808c0bdf02347ace098'') \<and>
   (\<exists>n. 2 \<le> int (leading_zeros (calculateHash 1700000003 ''Genesis Block'' [] n)))"
proof -
  have d: "0 \<le> sint (2 :: go_int)"
    by simp
  note gen = NewBlockchain_genesis [OF d, of 1700000003]
  from gen run_create have
    "\<exists>nonce hash. mineBlock 2 1700000003 ''Genesis Block'' [] = Returns (nonce, hash) \<and>
       run_chain0 =
         \<lparr>Blocks = [\<lparr>Timestamp = 1700000003, Data = ''Genesis Block'', PrevBlockHash = [],
                      Hash = hash, Nonce = nonce\<rparr>],
          Difficulty = 2\<rparr>"
    by blast
  then have "mineBlock 2 1700000003 ''Genesis Block'' [] =
      Returns (2, ''005d3c19901572a3938e71604d20683cede6da288b9da808c0bdf02347ace098'')"
    by (auto simp add: run_chain0_def run_genesis_def)
  moreover from gen run_create
  have "\<exists>n. sint (2 :: go_int) \<le> int (leading_zeros (calculateHash 1700000003 ''Genesis Block'' [] n))"
    by blast
  ultimately show ?thesis
    using d run_create by simp
qed

text \<open>
  C8. At difficulty 0 \<^verbatim>\<open>mineBlock\<close> returns the nonce 0 with the digest of the
  content at nonce 0, whatever the content: the first test of the loop succeeds.
\<close>

theorem mineBlock_difficulty_0:
  "mineBlock 0 timestamp data prevHash = Returns (0, calculateHash timestamp data prevHash 0)"
proof -
  have "HasPrefix (calculateHash timestamp data prevHash 0) []"
    by (simp add: HasPrefix_def)
  then have "mine_loop [] timestamp data prevHash 0 =
      Some (0, calculateHash timestamp data prevHash 0)"
    by (rule mine_loop_immediate)
  then show ?thesis
    by (simp add: mineBlock_Returns maxAlloc_def)
qed

theorem mineBlock_difficulty_0_witness:
  "mineBlock 0 1700000003 ''Genesis Block'' [] =
     Returns (0, ''38309fffc6258b196fe72353fc8d689027767d60e6b3adeb93ebf232426f37a5'')"
  using mineBlock_difficulty_0 [of 1700000003 "''Genesis Block''" "[]"]
  by (simp add: run_genesis_digest_0)

text \<open>
  C9. A difficulty that is not negative does not keep \<^verbatim>\<open>mineBlock\<close> from
  panicking: at the difficulty \<open>2 ^ 62\<close> the target string is longer than the runtime
  allocates, and \<^verbatim>\<open>strings.Repeat\<close> panics.
\<close>

theorem mineBlock_huge_difficulty_panics:
  "0 \<le> sint (4611686018427387904 :: go_int) \<and>
   mineBlock 4611686018427387904 1700000003 ''Genesis Block'' [] = Panics MakesliceLenOutOfRange"
proof -
  have "sint (4611686018427387904 :: go_int) = 4611686018427387904"
    by simp
  then show ?thesis
    by (simp add: mineBlock_Panics maxAlloc_def)
qed

text \<open>
  C9, amended. No operation panics when the difficulty is not negative and not above
  \<^verbatim>\<open>maxAlloc\<close>: \<^verbatim>\<open>calculateHash\<close> has a digest for every input, \<^verbatim>\<open>mineBlock\<close>
  and \<^verbatim>\<open>NewBlockchain\<close> return or run forever, and \<^verbatim>\<open>AddBlock\<close> does not panic on a
  chain that \<^verbatim>\<open>NewBlockchain\<close> and \<^verbatim>\<open>AddBlock\<close> produced, which is never empty
  and has a difficulty from 0 to 64. Above \<^verbatim>\<open>maxAlloc\<close>, \<^verbatim>\<open>mineBlock\<close> and
  \<^verbatim>\<open>NewBlockchain\<close> panic.
\<close>

theorem no_failure:
  "(\<exists>h. calculateHash timestamp data prevHash nonce = h \<and> hex64 h) \<and>
   (0 \<le> sint difficulty \<and> sint difficulty \<le> maxAlloc \<longrightarrow>
      (\<forall>e. mineBlock difficulty timestamp data prevHash \<noteq> Panics e) \<and>
      (\<forall>e. NewBlockchain now difficulty \<noteq> Panics e)) \<and>
   (maxAlloc < sint difficulty \<longrightarrow>
      mineBlock difficulty timestamp data prevHash = Panics MakesliceLenOutOfRange \<and>
      NewBlockchain now difficulty = Panics MakesliceLenOutOfRange) \<and>
   (produced bc \<longrightarrow>
      Blocks bc \<noteq> [] \<and> 0 \<le> sint (Difficulty bc) \<and> sint (Difficulty bc) \<le> 64 \<and>
      (\<forall>e. AddBlock now bc payload \<noteq> Panics e))"
proof (intro conjI impI allI)
  show "\<exists>h. calculateHash timestamp data prevHash nonce = h \<and> hex64 h"
    by (simp add: hex64_calculateHash)
next
  fix e
  assume "0 \<le> sint difficulty \<and> sint difficulty \<le> maxAlloc"
  then show "mineBlock difficulty timestamp data prevHash \<noteq> Panics e"
    by (simp add: mineBlock_Panics)
next
  fix e
  assume "0 \<le> sint difficulty \<and> sint difficulty \<le> maxAlloc"
  then show "NewBlockchain now difficulty \<noteq> Panics e"
    by (simp add: NewBlockchain_Panics)
next
  assume "maxAlloc < sint difficulty"
  then show "mineBlock difficulty timestamp data prevHash = Panics MakesliceLenOutOfRange"
    by (simp add: mineBlock_Panics)
next
  assume "maxAlloc < sint difficulty"
  then show "NewBlockchain now difficulty = Panics MakesliceLenOutOfRange"
    by (simp add: NewBlockchain_Panics)
next
  assume "produced bc"
  then show "Blocks bc \<noteq> []"
    by (rule produced_nonempty)
next
  assume "produced bc"
  then show "0 \<le> sint (Difficulty bc)"
    by (rule produced_difficulty)
next
  assume "produced bc"
  then show "sint (Difficulty bc) \<le> 64"
    by (rule produced_difficulty_le_64)
next
  fix e
  assume p: "produced bc"
  then have "AddBlock now bc payload = Diverges \<or>
      (\<exists>b. AddBlock now bc payload = Returns (bc\<lparr>Blocks := Blocks bc @ [b]\<rparr>))"
    by (rule AddBlock_outcome)
  then show "AddBlock now bc payload \<noteq> Panics e"
    by auto
qed

theorem no_failure_witness:
  "0 \<le> sint (2 :: go_int) \<and> sint (2 :: go_int) \<le> maxAlloc \<and> produced run_chain1 \<and>
   (\<forall>e. mineBlock 2 1700000126 ''A''
      ''005d3c19901572a3938e71604d20683cede6da288b9da808c0bdf02347ace098'' \<noteq> Panics e) \<and>
   (\<forall>e. NewBlockchain 1700000003 2 \<noteq> Panics e) \<and>
   (\<forall>e. AddBlock 1700000426 run_chain1 ''B'' \<noteq> Panics e)"
proof -
  have d: "0 \<le> sint (2 :: go_int) \<and> sint (2 :: go_int) \<le> maxAlloc"
    by (simp add: maxAlloc_def)
  note nf = no_failure [where timestamp = 1700000126 and data = "''A''"
      and prevHash = "''005d3c19901572a3938e71604d20683cede6da288b9da808c0bdf02347ace098''"
      and difficulty = 2 and now = 1700000003]
  from nf d have "\<forall>e. mineBlock 2 1700000126 ''A''
      ''005d3c19901572a3938e71604d20683cede6da288b9da808c0bdf02347ace098'' \<noteq> Panics e"
    by blast
  moreover from nf d have "\<forall>e. NewBlockchain 1700000003 2 \<noteq> Panics e"
    by blast
  moreover have "\<forall>e. AddBlock 1700000426 run_chain1 ''B'' \<noteq> Panics e"
    using no_failure [where bc = run_chain1 and now = 1700000426 and payload = "''B''"]
      produced_run_chain1
    by blast
  ultimately show ?thesis
    using d produced_run_chain1 by blast
qed

text \<open>
  C10. Every digest of \<^verbatim>\<open>calculateHash\<close> has exactly 64 characters, each a
  lowercase hexadecimal digit; so has the hash of every block of a chain, and the
  previous hash of every block but the genesis block.
\<close>

theorem digest_shape:
  "hex64 (calculateHash timestamp data prevHash nonce) \<and>
   (produced bc \<longrightarrow>
      (\<forall>b \<in> set (Blocks bc). hex64 (Hash b)) \<and>
      (\<forall>i. 1 \<le> i \<and> i < length (Blocks bc) \<longrightarrow> hex64 (PrevBlockHash (Blocks bc ! i))))"
proof (intro conjI impI ballI allI)
  show "hex64 (calculateHash timestamp data prevHash nonce)"
    by (rule hex64_calculateHash)
next
  fix b
  assume "produced bc" and "b \<in> set (Blocks bc)"
  then have "mineBlock (Difficulty bc) (Timestamp b) (Data b) (PrevBlockHash b) = Returns (Nonce b, Hash b)"
    by (rule produced_sealed)
  then have "Hash b = calculateHash (Timestamp b) (Data b) (PrevBlockHash b) (Nonce b)"
    by (rule mineBlock_sealed(2))
  then show "hex64 (Hash b)"
    by (simp add: hex64_calculateHash)
next
  fix i
  assume p: "produced bc" and i: "1 \<le> i \<and> i < length (Blocks bc)"
  let ?b = "Blocks bc ! (i - 1)"
  from i have "i - 1 < length (Blocks bc)"
    by arith
  then have mem: "?b \<in> set (Blocks bc)"
    by (rule nth_mem)
  with p have "mineBlock (Difficulty bc) (Timestamp ?b) (Data ?b) (PrevBlockHash ?b) = Returns (Nonce ?b, Hash ?b)"
    by (rule produced_sealed)
  then have "Hash ?b = calculateHash (Timestamp ?b) (Data ?b) (PrevBlockHash ?b) (Nonce ?b)"
    by (rule mineBlock_sealed(2))
  then have "hex64 (Hash ?b)"
    by (simp add: hex64_calculateHash)
  moreover from p i have "PrevBlockHash (Blocks bc ! i) = Hash ?b"
    using produced_linked [of bc] by blast
  ultimately show "hex64 (PrevBlockHash (Blocks bc ! i))"
    by simp
qed

theorem digest_shape_witness:
  "produced run_chain2 \<and> run_block_B \<in> set (Blocks run_chain2) \<and>
   hex64 (calculateHash 1700000003 ''Genesis Block'' [] 0) \<and>
   hex64 ''00300b51b5e2010aa8aa96821ebd50f2c86a90db3af77757095212e498e167cd'' \<and>
   hex64 (PrevBlockHash (Blocks run_chain2 ! 2))"
proof -
  have b: "run_block_B \<in> set (Blocks run_chain2)"
    by (simp add: run_chain2_def)
  have len: "length (Blocks run_chain2) = 3"
    by (simp add: run_chain2_def)
  note shape = digest_shape [of 1700000003 "''Genesis Block''" "[]" 0 run_chain2]
  from shape have "hex64 (calculateHash 1700000003 ''Genesis Block'' [] 0)"
    by simp
  moreover from shape produced_run_chain2 b have "hex64 (Hash run_block_B)"
    by blast
  then have "hex64 ''00300b51b5e2010aa8aa96821ebd50f2c86a90db3af77757095212e498e167cd''"
    by (simp add: run_block_B_def)
  moreover from shape produced_run_chain2 len have "hex64 (PrevBlockHash (Blocks run_chain2 ! 2))"
    by simp
  ultimately show ?thesis
    using produced_run_chain2 b by simp
qed

end
